theory Spec2Isabelle
  imports Main "HOL-Library.Word"
begin

section \<open>Python values used by ne\_span\<close>

text \<open>
  A Python \<open>str\<close> is a sequence of Unicode code points; \<open>len\<close> counts code points.
  The label tables have Hebrew keys, so a string is a list of code points here, and
  \<open>str\<close> turns an ASCII literal into one.
\<close>

type_synonym pystr = "nat list"

definition str :: "string \<Rightarrow> pystr" where
  "str s = map of_char s"

text \<open>
  A Python \<open>slice(start, stop, step)\<close> object; every component may be \<open>None\<close>.
\<close>

datatype pyslice = Slice (sl_start: "int option") (sl_stop: "int option") (sl_step: "int option")

text \<open>
  The exceptions the module can raise. \<open>IndexError\<close> carries the two values its message
  interpolates: the requested word slice and the number of words. \<open>KeyError\<close> carries the
  key that was not found.
\<close>

datatype error =
    TypeError
  | ValueError
  | IndexError pyslice nat
  | KeyError pystr
  | AttributeError string

subsection \<open>Slicing a sequence\<close>

text \<open>
  \<open>slice.indices(n)\<close> of CPython: a given bound that is negative counts from the end, and
  every bound is clamped to \<open>[lower, upper]\<close>, which is \<open>[0, n]\<close> for a positive step and
  \<open>[-1, n - 1]\<close> for a negative one. The step is not zero here.
\<close>

definition slice_clamp :: "int \<Rightarrow> int \<Rightarrow> int \<Rightarrow> int \<Rightarrow> int" where
  "slice_clamp n lower upper i = (if i < 0 then max (i + n) lower else min i upper)"

definition slice_adjust :: "int \<Rightarrow> int option \<Rightarrow> int option \<Rightarrow> int \<Rightarrow> int \<times> int" where
  "slice_adjust n st sp step =
     (let lower = (if step < 0 then - 1 else 0);
          upper = (if step < 0 then n - 1 else n);
          start = (case st of None \<Rightarrow> (if step < 0 then upper else lower)
                   | Some i \<Rightarrow> slice_clamp n lower upper i);
          stop = (case sp of None \<Rightarrow> (if step < 0 then lower else upper)
                  | Some i \<Rightarrow> slice_clamp n lower upper i)
      in (start, stop))"

definition slice_length :: "int \<Rightarrow> int \<Rightarrow> int \<Rightarrow> nat" where
  "slice_length start stop step =
     (if step < 0 then (if stop < start then nat ((start - stop - 1) div (- step) + 1) else 0)
      else (if start < stop then nat ((stop - start - 1) div step + 1) else 0))"

definition slice_select :: "'a list \<Rightarrow> int option \<Rightarrow> int option \<Rightarrow> int \<Rightarrow> 'a list" where
  "slice_select xs st sp step =
     (case slice_adjust (int (length xs)) st sp step of
        (start, stop) \<Rightarrow>
          map (\<lambda>i. xs ! nat (start + int i * step)) [0 ..< slice_length start stop step])"

text \<open>\<open>xs[sl]\<close> for a slice object: a zero step raises \<open>ValueError\<close>.\<close>

definition getitem_slice :: "'a list \<Rightarrow> pyslice \<Rightarrow> error + 'a list" where
  "getitem_slice xs sl =
     (let step = (case sl_step sl of None \<Rightarrow> 1 | Some k \<Rightarrow> k)
      in if step = 0 then Inl ValueError
         else Inr (slice_select xs (sl_start sl) (sl_stop sl) step))"

text \<open>\<open>s[a:b]\<close> with both bounds integers.\<close>

definition getslice :: "'a list \<Rightarrow> int \<Rightarrow> int \<Rightarrow> 'a list" where
  "getslice xs a b = slice_select xs (Some a) (Some b) 1"

text \<open>\<open>x or 0\<close> for \<open>x\<close> an integer or \<open>None\<close>: a falsy \<open>x\<close> (\<open>None\<close> or \<open>0\<close>) gives \<open>0\<close>.\<close>

definition or_zero :: "int option \<Rightarrow> int" where
  "or_zero x = (case x of None \<Rightarrow> 0 | Some v \<Rightarrow> (if v = 0 then 0 else v))"

section \<open>The span data model\<close>

text \<open>
  The two classes of \<open>_Subspannable\<close>: \<open>NEDoc\<close> holds the text, \<open>NESpan\<close> holds its owner
  (any \<open>_Subspannable\<close>), its start, its end and its label. The fields are private and set
  once by the constructor, so an object is a value and the chain of owners is finite.
\<close>

datatype subspannable = NEDoc pystr | OfSpan nespan
  and nespan = NESpan subspannable int int "pystr option"

text \<open>The \<open>text\<close> property of both classes.\<close>

fun text_of :: "subspannable \<Rightarrow> pystr"
  and NESpan_text :: "nespan \<Rightarrow> pystr" where
  "text_of (NEDoc t) = t"
| "text_of (OfSpan s) = NESpan_text s"
| "NESpan_text (NESpan d st en l) = getslice (text_of d) st en"

text \<open>\<open>NESpan.__init__\<close>: a falsy start is 0, an absent end is the length of the owner's text.\<close>

definition NESpan_init :: "subspannable \<Rightarrow> int option \<Rightarrow> int option \<Rightarrow> pystr option \<Rightarrow> nespan" where
  "NESpan_init d st en l =
     NESpan d (or_zero st) (case en of None \<Rightarrow> int (length (text_of d)) | Some e \<Rightarrow> e) l"

fun NESpan_doc :: "nespan \<Rightarrow> subspannable" where
  "NESpan_doc (NESpan d st en l) = d"

fun NESpan_label :: "nespan \<Rightarrow> pystr option" where
  "NESpan_label (NESpan d st en l) = l"

fun NESpan_range :: "nespan \<Rightarrow> int \<times> int" where
  "NESpan_range (NESpan d st en l) = (st, en)"

text \<open>
  The argument of \<open>subspan\<close> is any Python object; \<open>isinstance(item, slice)\<close> tells a slice
  from the rest.
\<close>

datatype item = ItemSlice pyslice | ItemNone | ItemInt int | ItemStr pystr | ItemPair int int

definition subspan :: "subspannable \<Rightarrow> item \<Rightarrow> pystr option \<Rightarrow> error + nespan" where
  "subspan self it span_label =
     (case it of
        ItemSlice sl \<Rightarrow> Inr (NESpan_init self (Some (or_zero (sl_start sl))) (sl_stop sl) span_label)
      | _ \<Rightarrow> Inl TypeError)"

text \<open>
  \<open>get_range_relative_to_doc\<close>: the loop runs while the parent has a \<open>range\<close>, that is while
  it is an \<open>NESpan\<close>; it adds the parent's start to both bounds and moves to the parent's owner.
\<close>

fun walk_to_doc :: "subspannable \<Rightarrow> int \<Rightarrow> int \<Rightarrow> int \<times> int" where
  "walk_to_doc (NEDoc t) start stop = (start, stop)"
| "walk_to_doc (OfSpan (NESpan d st en l)) start stop = walk_to_doc d (start + st) (stop + st)"

definition get_range_relative_to_doc :: "nespan \<Rightarrow> int \<times> int" where
  "get_range_relative_to_doc s =
     (case NESpan_range s of (start, stop) \<Rightarrow> walk_to_doc (NESpan_doc s) start stop)"




text \<open>
  \<open>serialize\<close> builds a dict; it is an association list in insertion order, with the
  values that occur in it.
\<close>

datatype pyval = PyNone | PyStr pystr | PyPair int int

fun NESpan_serialize :: "nespan \<Rightarrow> bool \<Rightarrow> (string \<times> pyval) list" where
  "NESpan_serialize (NESpan d st en l) with_text =
     [(''range'', PyPair st en),
      (''label'', (case l of None \<Rightarrow> PyNone | Some x \<Rightarrow> PyStr x))]
     @ (if with_text then [(''text'', PyStr (NESpan_text (NESpan d st en l)))] else [])"

subsection \<open>Words\<close>

text \<open>
  The tokenizer is spaCy's multi-language tokenizer, an external library: it is the
  parameter \<open>tok\<close>. A token has a character offset \<open>idx\<close>, a length and the flag
  \<open>is_space\<close>.
\<close>

datatype token = Token (idx: int) (tok_len: nat) (is_space: bool)

type_synonym tokenizer = "pystr \<Rightarrow> token list"

definition word_spans :: "tokenizer \<Rightarrow> subspannable \<Rightarrow> (int \<times> int) list" where
  "word_spans tok self =
     map (\<lambda>t. (idx t, idx t + int (tok_len t)))
         (filter (\<lambda>t. \<not> is_space t) (tok (text_of self)))"

definition word_length :: "tokenizer \<Rightarrow> subspannable \<Rightarrow> nat" where
  "word_length tok self = length (word_spans tok self)"

definition subspan_by_word_indices :: "tokenizer \<Rightarrow> subspannable \<Rightarrow> pyslice \<Rightarrow> error + nespan" where
  "subspan_by_word_indices tok self word_slice =
     (let spans = word_spans tok self in
      case getitem_slice spans word_slice of
        Inl e \<Rightarrow> Inl e
      | Inr word_span_slice \<Rightarrow>
          if word_span_slice = [] then
            (if (case sl_start word_slice of None \<Rightarrow> False | Some s \<Rightarrow> s > int (length spans))
             then Inl (IndexError word_slice (length (word_spans tok self)))
             else subspan self (ItemSlice (Slice (Some 0) (Some 0) None)) None)
          else subspan self
                 (ItemSlice (Slice (Some (fst (hd word_span_slice)))
                                   (Some (snd (last word_span_slice))) None)) None)"

text \<open>
  A splitter at spaces, for the examples: a word is a run of characters other than the
  space (code point 32), the space that ends a word belongs to no token, and every other
  space is a token with \<open>is_space\<close> set.
\<close>

fun ws_scan :: "int \<Rightarrow> int option \<Rightarrow> pystr \<Rightarrow> token list" where
  "ws_scan i None [] = []"
| "ws_scan i (Some s) [] = [Token s (nat (i - s)) False]"
| "ws_scan i None (c # cs) =
     (if c = 32 then Token i 1 True # ws_scan (i + 1) None cs
      else ws_scan (i + 1) (Some i) cs)"
| "ws_scan i (Some s) (c # cs) =
     (if c = 32 then Token s (nat (i - s)) False # ws_scan (i + 1) None cs
      else ws_scan (i + 1) (Some s) cs)"

definition space_tokenizer :: tokenizer where
  "space_tokenizer t = ws_scan 0 None t"

section \<open>Label classification\<close>

datatype NamedEntityType = PERSON | GROUP | CITATION

datatype RefPartType = NAMED | NUMBERED | DH | RANGE_SYMBOL | RANGE | RELATIVE | IBID | NON_CTS

text \<open>The two tables, from label to the name of an attribute of the enum.\<close>

definition LABEL_TO_REF_PART_TYPE_ATTR :: "(pystr \<times> string) list" where
  "LABEL_TO_REF_PART_TYPE_ATTR =
     [([1499, 1493, 1514, 1512, 1514], ''NAMED''),
      ([1502, 1505, 1508, 1512], ''NUMBERED''),
      ([1491, 1492], ''DH''),
      ([1505, 1497, 1502, 1503, 45, 1496, 1493, 1493, 1495], ''RANGE_SYMBOL''),
      ([1500, 1511, 1502, 1503, 45, 1500, 1492, 1500, 1503], ''RELATIVE''),
      ([1513, 1501], ''IBID''),
      ([1500, 1488, 45, 1512, 1510, 1497, 1507], ''NON_CTS''),
      (str ''title'', ''NAMED''),
      (str ''number'', ''NUMBERED''),
      (str ''DH'', ''DH''),
      (str ''range-symbol'', ''RANGE_SYMBOL''),
      (str ''dir-ibid'', ''RELATIVE''),
      (str ''ibid'', ''IBID''),
      (str ''non-cts'', ''NON_CTS'')]"

definition LABEL_TO_NAMED_ENTITY_TYPE_ATTR :: "(pystr \<times> string) list" where
  "LABEL_TO_NAMED_ENTITY_TYPE_ATTR =
     [([1502, 1511, 1493, 1512], ''CITATION''),
      ([1489, 1503, 45, 1488, 1491, 1501], ''PERSON''),
      ([1511, 1489, 1493, 1510, 1492], ''GROUP''),
      (str ''Person'', ''PERSON''),
      (str ''Group'', ''GROUP''),
      (str ''Citation'', ''CITATION'')]"

text \<open>\<open>d[k]\<close> on a dict: a missing key raises \<open>KeyError\<close>.\<close>

definition dict_getitem :: "(pystr \<times> 'v) list \<Rightarrow> pystr \<Rightarrow> error + 'v" where
  "dict_getitem d k = (case map_of d k of None \<Rightarrow> Inl (KeyError k) | Some v \<Rightarrow> Inr v)"

text \<open>
  \<open>getattr(cls, name)\<close> at the names of the members of each enum; any other name the
  tables could hold has no member and raises \<open>AttributeError\<close>.
\<close>

definition NamedEntityType_getattr :: "string \<Rightarrow> error + NamedEntityType" where
  "NamedEntityType_getattr name =
     (if name = ''PERSON'' then Inr PERSON
      else if name = ''GROUP'' then Inr GROUP
      else if name = ''CITATION'' then Inr CITATION
      else Inl (AttributeError name))"

definition RefPartType_getattr :: "string \<Rightarrow> error + RefPartType" where
  "RefPartType_getattr name =
     (if name = ''NAMED'' then Inr NAMED
      else if name = ''NUMBERED'' then Inr NUMBERED
      else if name = ''DH'' then Inr DH
      else if name = ''RANGE_SYMBOL'' then Inr RANGE_SYMBOL
      else if name = ''RANGE'' then Inr RANGE
      else if name = ''RELATIVE'' then Inr RELATIVE
      else if name = ''IBID'' then Inr IBID
      else if name = ''NON_CTS'' then Inr NON_CTS
      else Inl (AttributeError name))"

definition NamedEntityType_span_label_to_enum :: "pystr \<Rightarrow> error + NamedEntityType" where
  "NamedEntityType_span_label_to_enum span_label =
     (case dict_getitem LABEL_TO_NAMED_ENTITY_TYPE_ATTR span_label of
        Inl e \<Rightarrow> Inl e
      | Inr name \<Rightarrow> NamedEntityType_getattr name)"

definition RefPartType_span_label_to_enum :: "pystr \<Rightarrow> error + RefPartType" where
  "RefPartType_span_label_to_enum span_label =
     (case dict_getitem LABEL_TO_REF_PART_TYPE_ATTR span_label of
        Inl e \<Rightarrow> Inl e
      | Inr name \<Rightarrow> RefPartType_getattr name)"

text \<open>The name of each member, as \<open>member.name\<close> gives it.\<close>

fun NamedEntityType_name :: "NamedEntityType \<Rightarrow> string" where
  "NamedEntityType_name PERSON = ''PERSON''"
| "NamedEntityType_name GROUP = ''GROUP''"
| "NamedEntityType_name CITATION = ''CITATION''"

fun RefPartType_name :: "RefPartType \<Rightarrow> string" where
  "RefPartType_name NAMED = ''NAMED''"
| "RefPartType_name NUMBERED = ''NUMBERED''"
| "RefPartType_name DH = ''DH''"
| "RefPartType_name RANGE_SYMBOL = ''RANGE_SYMBOL''"
| "RefPartType_name RANGE = ''RANGE''"
| "RefPartType_name RELATIVE = ''RELATIVE''"
| "RefPartType_name IBID = ''IBID''"
| "RefPartType_name NON_CTS = ''NON_CTS''"

section \<open>Properties stated of spans\<close>

text \<open>The invariant the data model states of a span: \<open>0 <= start <= end <= len(owner.text)\<close>.\<close>

fun span_invariant :: "nespan \<Rightarrow> bool" where
  "span_invariant (NESpan d st en l) = (0 \<le> st \<and> st \<le> en \<and> en \<le> int (length (text_of d)))"

text \<open>
  What the module expects of the tokenizer on a text: every token lies inside the text, and
  the tokens come in the order of their offsets.
\<close>

definition tokens_in_order :: "tokenizer \<Rightarrow> pystr \<Rightarrow> bool" where
  "tokens_in_order tok t =
     ((\<forall>k \<in> set (tok t). 0 \<le> idx k \<and> idx k + int (tok_len k) \<le> int (length t))
      \<and> sorted (map idx (tok t)))"


section \<open>Lemmas on slicing\<close>

lemma slice_clamp_bounds: "0 \<le> n \<Longrightarrow> 0 \<le> slice_clamp n 0 n i \<and> slice_clamp n 0 n i \<le> n"
  by (simp add: slice_clamp_def)

lemma map_nth_take_drop:
  "k + m \<le> length xs \<Longrightarrow> map (\<lambda>i. xs ! (k + i)) [0 ..< m] = take m (drop k xs)"
  by (rule nth_equalityI) simp_all

lemma getslice_take_drop:
  "getslice xs a b =
     take (nat (slice_clamp (int (length xs)) 0 (int (length xs)) b
                - slice_clamp (int (length xs)) 0 (int (length xs)) a))
          (drop (nat (slice_clamp (int (length xs)) 0 (int (length xs)) a)) xs)"
proof -
  let ?n = "int (length xs)"
  let ?s = "slice_clamp ?n 0 ?n a"
  let ?e = "slice_clamp ?n 0 ?n b"
  have s: "0 \<le> ?s" "?s \<le> ?n" and e: "0 \<le> ?e" "?e \<le> ?n"
    using slice_clamp_bounds [of ?n] by simp_all
  have len: "slice_length ?s ?e 1 = nat (?e - ?s)"
    by (simp add: slice_length_def)
  have idx: "\<And>i. nat (?s + int i) = nat ?s + i"
    using s by (simp add: nat_add_distrib)
  have fit: "nat ?s + nat (?e - ?s) \<le> length xs"
    using s e by linarith
  have "getslice xs a b = map (\<lambda>i. xs ! (nat ?s + i)) [0 ..< nat (?e - ?s)]"
    by (simp add: getslice_def slice_select_def slice_adjust_def Let_def len idx)
  also have "\<dots> = take (nat (?e - ?s)) (drop (nat ?s) xs)"
    using fit by (rule map_nth_take_drop)
  finally show ?thesis .
qed

lemma getslice_nonneg:
  assumes "0 \<le> a" "0 \<le> b"
  shows "getslice xs a b = drop (nat a) (take (nat b) xs)"
proof -
  let ?n = "int (length xs)"
  have a: "nat (slice_clamp ?n 0 ?n a) = min (nat a) (length xs)"
    using assms unfolding slice_clamp_def min_def by (simp split: if_splits) linarith+
  have b: "nat (slice_clamp ?n 0 ?n b - slice_clamp ?n 0 ?n a) = min (nat b) (length xs) - min (nat a) (length xs)"
    using assms unfolding slice_clamp_def min_def by (simp split: if_splits) linarith+
  have "take (min (nat b) (length xs) - min (nat a) (length xs)) (drop (min (nat a) (length xs)) xs)
        = take (nat b - nat a) (drop (nat a) xs)"
  proof (cases "nat a \<le> length xs")
    case True
    then show ?thesis by (cases "nat b \<le> length xs") (simp_all add: min_def)
  next
    case False
    then show ?thesis by simp
  qed
  then show ?thesis
    unfolding getslice_take_drop a b by (simp add: drop_take)
qed

lemma getslice_infix: "\<exists>pre post. xs = pre @ getslice xs a b @ post"
proof -
  let ?s = "nat (slice_clamp (int (length xs)) 0 (int (length xs)) a)"
  let ?k = "nat (slice_clamp (int (length xs)) 0 (int (length xs)) b
                 - slice_clamp (int (length xs)) 0 (int (length xs)) a)"
  have "xs = take ?s xs @ take ?k (drop ?s xs) @ drop ?k (drop ?s xs)"
    by (metis append_take_drop_id)
  then show ?thesis
    unfolding getslice_take_drop by blast
qed

lemma slice_adjust_pos:
  assumes "0 < step" "slice_adjust (int (length xs)) st sp step = (start, stop)"
  shows "0 \<le> start \<and> start \<le> int (length xs) \<and> 0 \<le> stop \<and> stop \<le> int (length xs)"
  using assms by (auto simp: slice_adjust_def slice_clamp_def Let_def split: option.splits)

lemma slice_last_index:
  fixes start stop step :: int
  assumes "0 < step" "start < stop"
  shows "start + int (slice_length start stop step - 1) * step < stop"
proof -
  have q: "0 \<le> (stop - start - 1) div step"
    using assms by (simp add: pos_imp_zdiv_nonneg_iff)
  have "slice_length start stop step - 1 = nat ((stop - start - 1) div step)"
    using assms q by (simp add: slice_length_def nat_add_distrib)
  then have "int (slice_length start stop step - 1) * step = ((stop - start - 1) div step) * step"
    using q by simp
  also have "\<dots> \<le> stop - start - 1"
    using assms(1) div_mult_mod_eq [of "stop - start - 1" step]
      pos_mod_sign [of step "stop - start - 1"] by linarith
  finally show ?thesis by linarith
qed

lemma slice_select_pos_ends:
  assumes step: "0 < step" and ne: "slice_select xs st sp step \<noteq> []"
  shows "\<exists>i j. i \<le> j \<and> j < length xs
           \<and> hd (slice_select xs st sp step) = xs ! i
           \<and> last (slice_select xs st sp step) = xs ! j"
proof -
  obtain start stop where adj: "slice_adjust (int (length xs)) st sp step = (start, stop)"
    by (cases "slice_adjust (int (length xs)) st sp step")
  let ?k = "slice_length start stop step"
  let ?f = "\<lambda>i. xs ! nat (start + int i * step)"
  have sel: "slice_select xs st sp step = map ?f [0 ..< ?k]"
    by (simp add: slice_select_def adj)
  have bounds: "0 \<le> start" "stop \<le> int (length xs)"
    using slice_adjust_pos [OF step adj] by simp_all
  have k: "0 < ?k" using ne sel by simp
  then have lt: "start < stop"
    using step by (simp add: slice_length_def split: if_splits)
  have upper: "start + int (?k - 1) * step < stop"
    using slice_last_index [OF step lt] .
  have h: "hd (map ?f [0 ..< ?k]) = ?f 0"
    using k by (simp add: hd_map upt_conv_Cons)
  have l: "last (map ?f [0 ..< ?k]) = ?f (?k - 1)"
    using k by (simp add: last_map)
  have mono: "start \<le> start + int (?k - 1) * step"
    using step by simp
  show ?thesis
  proof (intro exI conjI)
    show "nat start \<le> nat (start + int (?k - 1) * step)"
      using mono by simp
    show "nat (start + int (?k - 1) * step) < length xs"
    proof -
      have "start + int (?k - 1) * step < int (length xs)"
        using upper bounds(2) by (rule less_le_trans)
      moreover have "0 \<le> start + int (?k - 1) * step"
        using mono bounds(1) by (rule order_trans [rotated])
      ultimately show ?thesis by (simp add: nat_less_iff)
    qed
    show "hd (slice_select xs st sp step) = xs ! nat start"
      using h by (simp add: sel)
    show "last (slice_select xs st sp step) = xs ! nat (start + int (?k - 1) * step)"
      using l by (simp add: sel)
  qed
qed

lemma word_spans_ordered:
  assumes "tokens_in_order tok (text_of self)" "i \<le> j" "j < length (word_spans tok self)"
  shows "0 \<le> fst (word_spans tok self ! i)
       \<and> fst (word_spans tok self ! i) \<le> snd (word_spans tok self ! j)
       \<and> snd (word_spans tok self ! j) \<le> int (length (text_of self))"
proof -
  let ?ws = "filter (\<lambda>t. \<not> is_space t) (tok (text_of self))"
  have len: "length (word_spans tok self) = length ?ws"
    by (simp add: word_spans_def)
  have srt: "sorted (map idx ?ws)"
    using assms(1) by (simp add: tokens_in_order_def sorted_filter)
  have mem: "\<And>n. n < length ?ws \<Longrightarrow> 0 \<le> idx (?ws ! n) \<and> idx (?ws ! n) + int (tok_len (?ws ! n)) \<le> int (length (text_of self))"
  proof -
    fix n assume "n < length ?ws"
    then have "?ws ! n \<in> set ?ws" by (rule nth_mem)
    then have "?ws ! n \<in> set (tok (text_of self))" by simp
    then show "0 \<le> idx (?ws ! n) \<and> idx (?ws ! n) + int (tok_len (?ws ! n)) \<le> int (length (text_of self))"
      using assms(1) by (simp add: tokens_in_order_def)
  qed
  have j: "j < length ?ws" and i: "i < length ?ws"
    using assms(2,3) len by simp_all
  have "idx (?ws ! i) \<le> idx (?ws ! j)"
    using srt assms(2) j sorted_nth_mono [of "map idx ?ws" i j] i by simp
  then show ?thesis
    using mem [OF i] mem [OF j] i j by (simp add: word_spans_def)
qed

lemma getitem_slice_pos:
  assumes "sl_step ws = None \<or> (\<exists>k. sl_step ws = Some k \<and> 0 < k)"
  shows "\<exists>k. 0 < k \<and> getitem_slice xs ws = Inr (slice_select xs (sl_start ws) (sl_stop ws) k)"
proof (cases "sl_step ws")
  case None
  then show ?thesis
    by (intro exI [of _ 1]) (simp add: getitem_slice_def)
next
  case (Some k)
  with assms show ?thesis
    by (intro exI [of _ k]) (auto simp: getitem_slice_def)
qed

subsection \<open>A worked text\<close>

lemma hello_words:
  "word_spans space_tokenizer (NEDoc (str ''hello world foo'')) = [(0, 5), (6, 11), (12, 15)]"
  by code_simp

text \<open>
  A negative step selects the words from the last to the first, and the span then runs
  from the start of the last word to the end of the first.
\<close>

lemma hello_words_reversed:
  "subspan_by_word_indices space_tokenizer (NEDoc (str ''hello world foo''))
     (Slice None None (Some (- 1)))
   = Inr (NESpan (NEDoc (str ''hello world foo'')) 12 5 None)"
  by code_simp

section \<open>Ranges relative to the document\<close>

lemma walk_to_doc_shift:
  "walk_to_doc d (x + k) (y + k) = (fst (walk_to_doc d x y) + k, snd (walk_to_doc d x y) + k)"
  by (induction d x y rule: walk_to_doc.induct) (simp_all add: algebra_simps)

lemma subspan_slice:
  "subspan self (ItemSlice (Slice st sp k)) l =
     Inr (NESpan self (or_zero st) (case sp of None \<Rightarrow> int (length (text_of self)) | Some e \<Rightarrow> e) l)"
  by (simp add: subspan_def NESpan_init_def or_zero_def split: option.splits)

text \<open>
  C1: for a document \<open>D\<close>, \<open>S1 = D.subspan([a,b))\<close>, \<open>S2 = S1.subspan([c,d))\<close> and
  \<open>S3 = S2.subspan([e,f))\<close>: the range of \<open>S1\<close> relative to the document is its own range
  \<open>(a, b)\<close>, that of \<open>S2\<close> is \<open>(a+c, a+d)\<close>, that of \<open>S3\<close> is \<open>(a+c+e, a+c+f)\<close>; and at any
  depth, a span \<open>S'\<close> cut from a span \<open>S\<close> at \<open>[c,d)\<close> has the range \<open>(r+c, r+d)\<close>, where \<open>r\<close> is
  the start of \<open>S\<close> relative to the document. The walk is a total function on the finite
  chain of owners and stops at the document.
\<close>

theorem C1_range_relative_to_doc:
  "(subspan (NEDoc t) (ItemSlice (Slice (Some a) (Some b) k1)) l1 = Inr S1 \<longrightarrow>
      get_range_relative_to_doc S1 = (a, b)
      \<and> (subspan (OfSpan S1) (ItemSlice (Slice (Some c) (Some d) k2)) l2 = Inr S2 \<longrightarrow>
           get_range_relative_to_doc S2 = (a + c, a + d)
           \<and> (subspan (OfSpan S2) (ItemSlice (Slice (Some e) (Some f) k3)) l3 = Inr S3 \<longrightarrow>
                get_range_relative_to_doc S3 = (a + c + e, a + c + f))))
   \<and> (\<forall>S S' c d k l. subspan (OfSpan S) (ItemSlice (Slice (Some c) (Some d) k)) l = Inr S' \<longrightarrow>
         get_range_relative_to_doc S' =
           (fst (get_range_relative_to_doc S) + c, fst (get_range_relative_to_doc S) + d))"
proof -
  have deep: "get_range_relative_to_doc S' =
           (fst (get_range_relative_to_doc S) + c, fst (get_range_relative_to_doc S) + d)"
    if "subspan (OfSpan S) (ItemSlice (Slice (Some c) (Some d) k)) l = Inr S'"
    for S S' c d k l
  proof -
    obtain o' st en lb where S: "S = NESpan o' st en lb" by (cases S)
    have S': "S' = NESpan (OfSpan S) c d l"
      using that by (simp add: subspan_slice or_zero_def)
    have "get_range_relative_to_doc S' = walk_to_doc o' (c + st) (d + st)"
      by (simp add: S' S get_range_relative_to_doc_def)
    also have "\<dots> = walk_to_doc o' (st + c) (st + (d - c) + c)"
      by (simp add: algebra_simps)
    also have "\<dots> = (fst (walk_to_doc o' st (st + (d - c))) + c, snd (walk_to_doc o' st (st + (d - c))) + c)"
      by (rule walk_to_doc_shift)
    finally have 1: "get_range_relative_to_doc S' =
        (fst (walk_to_doc o' st (st + (d - c))) + c, snd (walk_to_doc o' st (st + (d - c))) + c)" .
    have gap: "snd (walk_to_doc p x y) = fst (walk_to_doc p x y) + (y - x)" for p x y
      by (induction p x y rule: walk_to_doc.induct) simp_all
    have same: "fst (walk_to_doc p x y) = fst (walk_to_doc p x z)" for p x y z
      by (induction p x y arbitrary: z rule: walk_to_doc.induct) simp_all
    have 2: "fst (get_range_relative_to_doc S) = fst (walk_to_doc o' st (st + (d - c)))"
      by (simp add: S get_range_relative_to_doc_def same [of o' st en "st + (d - c)"])
    show ?thesis
      unfolding 1 2 by (simp add: gap)
  qed
  have top: "get_range_relative_to_doc S1 = (a, b)"
    if "subspan (NEDoc t) (ItemSlice (Slice (Some a) (Some b) k1)) l1 = Inr S1"
    using that by (auto simp: subspan_slice or_zero_def get_range_relative_to_doc_def)
  show ?thesis
    using top deep by simp
qed

theorem C1_range_relative_to_doc_witness:
  "subspan (NEDoc (str ''abcdefghij'')) (ItemSlice (Slice (Some 2) (Some 9) None)) None
     = Inr (NESpan (NEDoc (str ''abcdefghij'')) 2 9 None)
   \<and> subspan (OfSpan (NESpan (NEDoc (str ''abcdefghij'')) 2 9 None))
        (ItemSlice (Slice (Some 1) (Some 6) None)) None
     = Inr (NESpan (OfSpan (NESpan (NEDoc (str ''abcdefghij'')) 2 9 None)) 1 6 None)
   \<and> subspan (OfSpan (NESpan (OfSpan (NESpan (NEDoc (str ''abcdefghij'')) 2 9 None)) 1 6 None))
        (ItemSlice (Slice (Some 3) (Some 4) None)) None
     = Inr (NESpan (OfSpan (NESpan (OfSpan (NESpan (NEDoc (str ''abcdefghij'')) 2 9 None)) 1 6 None)) 3 4 None)
   \<and> get_range_relative_to_doc (NESpan (NEDoc (str ''abcdefghij'')) 2 9 None) = (2, 9)
   \<and> get_range_relative_to_doc
        (NESpan (OfSpan (NESpan (NEDoc (str ''abcdefghij'')) 2 9 None)) 1 6 None) = (3, 8)
   \<and> get_range_relative_to_doc
        (NESpan (OfSpan (NESpan (OfSpan (NESpan (NEDoc (str ''abcdefghij'')) 2 9 None)) 1 6 None)) 3 4 None)
       = (6, 7)"
  using C1_range_relative_to_doc
    [where t = "str ''abcdefghij''" and a = 2 and b = 9 and ?k1.0 = None and ?l1.0 = None
       and ?S1.0 = "NESpan (NEDoc (str ''abcdefghij'')) 2 9 None"
       and c = 1 and d = 6 and ?k2.0 = None and ?l2.0 = None
       and ?S2.0 = "NESpan (OfSpan (NESpan (NEDoc (str ''abcdefghij'')) 2 9 None)) 1 6 None"
       and e = 3 and f = 4 and ?k3.0 = None and ?l3.0 = None
       and ?S3.0 = "NESpan (OfSpan (NESpan (OfSpan (NESpan (NEDoc (str ''abcdefghij'')) 2 9 None)) 1 6 None)) 3 4 None"]
  by (simp add: subspan_slice or_zero_def)

section \<open>Hashing\<close>






section \<open>Slicing by word indices\<close>

text \<open>
  C3: when the word slice selects no word, \<open>subspan_by_word_indices\<close> raises exactly when
  the start of the slice is given and greater than the number of words; the error is the
  \<open>IndexError\<close> of the requested slice and the word count. In every other case the result is
  the span \<open>[0, 0)\<close> of the receiver, whose text is empty.
\<close>

theorem C3_empty_word_slice:
  "getitem_slice (word_spans tok self) ws = Inr [] \<longrightarrow>
     ((\<exists>e. subspan_by_word_indices tok self ws = Inl e)
        = (\<exists>s. sl_start ws = Some s \<and> int (word_length tok self) < s))
     \<and> ((\<exists>s. sl_start ws = Some s \<and> int (word_length tok self) < s) \<longrightarrow>
          subspan_by_word_indices tok self ws = Inl (IndexError ws (word_length tok self)))
     \<and> (\<not> (\<exists>s. sl_start ws = Some s \<and> int (word_length tok self) < s) \<longrightarrow>
          subspan_by_word_indices tok self ws = Inr (NESpan self 0 0 None)
          \<and> NESpan_range (NESpan self 0 0 None) = (0, 0)
          \<and> NESpan_text (NESpan self 0 0 None) = [])"
proof
  assume e: "getitem_slice (word_spans tok self) ws = Inr []"
  have zero: "getslice xs 0 0 = []" for xs :: pystr
    by (simp add: getslice_take_drop slice_clamp_def)
  show "((\<exists>e. subspan_by_word_indices tok self ws = Inl e)
        = (\<exists>s. sl_start ws = Some s \<and> int (word_length tok self) < s))
     \<and> ((\<exists>s. sl_start ws = Some s \<and> int (word_length tok self) < s) \<longrightarrow>
          subspan_by_word_indices tok self ws = Inl (IndexError ws (word_length tok self)))
     \<and> (\<not> (\<exists>s. sl_start ws = Some s \<and> int (word_length tok self) < s) \<longrightarrow>
          subspan_by_word_indices tok self ws = Inr (NESpan self 0 0 None)
          \<and> NESpan_range (NESpan self 0 0 None) = (0, 0)
          \<and> NESpan_text (NESpan self 0 0 None) = [])"
    by (cases "sl_start ws")
       (auto simp: subspan_by_word_indices_def Let_def e word_length_def subspan_slice or_zero_def zero)
qed

theorem C3_empty_word_slice_witness:
  "getitem_slice (word_spans space_tokenizer (NEDoc (str ''hello world foo''))) (Slice (Some 5) None None) = Inr []
   \<and> subspan_by_word_indices space_tokenizer (NEDoc (str ''hello world foo'')) (Slice (Some 5) None None)
       = Inl (IndexError (Slice (Some 5) None None) 3)
   \<and> getitem_slice (word_spans space_tokenizer (NEDoc (str ''hello world foo''))) (Slice (Some 2) (Some 2) None) = Inr []
   \<and> subspan_by_word_indices space_tokenizer (NEDoc (str ''hello world foo'')) (Slice (Some 2) (Some 2) None)
       = Inr (NESpan (NEDoc (str ''hello world foo'')) 0 0 None)"
proof -
  let ?d = "NEDoc (str ''hello world foo'')"
  have n: "word_length space_tokenizer ?d = 3"
    by (simp add: word_length_def hello_words)
  have a: "getitem_slice (word_spans space_tokenizer ?d) (Slice (Some 5) None None) = Inr []"
    unfolding hello_words by code_simp
  have b: "getitem_slice (word_spans space_tokenizer ?d) (Slice (Some 2) (Some 2) None) = Inr []"
    unfolding hello_words by code_simp
  show ?thesis
    using C3_empty_word_slice [where tok = space_tokenizer and self = ?d and ws = "Slice (Some 5) None None"]
      C3_empty_word_slice [where tok = space_tokenizer and self = ?d and ws = "Slice (Some 2) (Some 2) None"]
      a b n
    by simp
qed

section \<open>The invariant of a span\<close>

text \<open>
  The claim C4 as it is written fails: \<open>subspan\<close> checks no bound, so the span \<open>[2, 10)\<close> of
  the document \<open>abc\<close> is built and its end is past the text.
\<close>

theorem C4_invariant_counterexample:
  "subspan (NEDoc (str ''abc'')) (ItemSlice (Slice (Some 2) (Some 10) None)) None
     = Inr (NESpan (NEDoc (str ''abc'')) 2 10 None)
   \<and> \<not> span_invariant (NESpan (NEDoc (str ''abc'')) 2 10 None)"
  by (simp add: subspan_slice or_zero_def str_def)

text \<open>
  C4, amended: a span built by \<open>subspan\<close> satisfies \<open>0 <= start <= end <= len(owner.text)\<close>
  exactly when the requested offsets do (an absent or zero start being 0 and an absent end
  the length of the owner's text). A span built by \<open>subspan_by_word_indices\<close> with no step or
  a positive step satisfies it, when the tokenizer reports tokens inside the text and in the
  order of their offsets.
\<close>

theorem C4_span_invariant:
  "(subspan self (ItemSlice (Slice st sp k)) l = Inr s \<longrightarrow>
      span_invariant s =
        (0 \<le> or_zero st
         \<and> or_zero st \<le> (case sp of None \<Rightarrow> int (length (text_of self)) | Some e \<Rightarrow> e)
         \<and> (case sp of None \<Rightarrow> int (length (text_of self)) | Some e \<Rightarrow> e) \<le> int (length (text_of self))))
   \<and> (tokens_in_order tok (text_of self)
        \<and> (sl_step ws = None \<or> (\<exists>k. sl_step ws = Some k \<and> 0 < k))
        \<and> subspan_by_word_indices tok self ws = Inr s'
        \<longrightarrow> span_invariant s')"
proof (intro conjI impI)
  assume "subspan self (ItemSlice (Slice st sp k)) l = Inr s"
  then have "s = NESpan self (or_zero st) (case sp of None \<Rightarrow> int (length (text_of self)) | Some e \<Rightarrow> e) l"
    by (simp add: subspan_slice)
  then show "span_invariant s =
        (0 \<le> or_zero st
         \<and> or_zero st \<le> (case sp of None \<Rightarrow> int (length (text_of self)) | Some e \<Rightarrow> e)
         \<and> (case sp of None \<Rightarrow> int (length (text_of self)) | Some e \<Rightarrow> e) \<le> int (length (text_of self)))"
    by simp
next
  assume a: "tokens_in_order tok (text_of self)
        \<and> (sl_step ws = None \<or> (\<exists>k. sl_step ws = Some k \<and> 0 < k))
        \<and> subspan_by_word_indices tok self ws = Inr s'"
  let ?spans = "word_spans tok self"
  from a obtain k where k: "0 < k"
    and sel: "getitem_slice ?spans ws = Inr (slice_select ?spans (sl_start ws) (sl_stop ws) k)"
    using getitem_slice_pos [of ws ?spans] by blast
  let ?sel = "slice_select ?spans (sl_start ws) (sl_stop ws) k"
  show "span_invariant s'"
  proof (cases "?sel = []")
    case True
    with a sel have "s' = NESpan self 0 0 None"
      by (auto simp: subspan_by_word_indices_def Let_def subspan_slice or_zero_def split: if_splits)
    then show ?thesis by simp
  next
    case False
    with a sel have s': "s' = NESpan self (fst (hd ?sel)) (snd (last ?sel)) None"
      by (auto simp: subspan_by_word_indices_def Let_def subspan_slice or_zero_def)
    from slice_select_pos_ends [OF k False] obtain i j where ij: "i \<le> j" "j < length ?spans"
      and h: "hd ?sel = ?spans ! i" and l: "last ?sel = ?spans ! j"
      by blast
    from a have "tokens_in_order tok (text_of self)" by simp
    from word_spans_ordered [OF this ij] show ?thesis
      by (simp add: s' h l)
  qed
qed


theorem C4_span_invariant_witness:
  "subspan (NEDoc (str ''abc'')) (ItemSlice (Slice (Some 1) None None)) None
     = Inr (NESpan (NEDoc (str ''abc'')) 1 3 None)
   \<and> span_invariant (NESpan (NEDoc (str ''abc'')) 1 3 None)
   \<and> tokens_in_order space_tokenizer (text_of (NEDoc (str ''hello world foo'')))
   \<and> subspan_by_word_indices space_tokenizer (NEDoc (str ''hello world foo''))
        (Slice (Some 1) (Some 3) None)
     = Inr (NESpan (NEDoc (str ''hello world foo'')) 6 15 None)
   \<and> span_invariant (NESpan (NEDoc (str ''hello world foo'')) 6 15 None)"
proof -
  let ?d = "NEDoc (str ''hello world foo'')"
  have t: "tokens_in_order space_tokenizer (text_of ?d)"
    by code_simp
  have w: "subspan_by_word_indices space_tokenizer ?d (Slice (Some 1) (Some 3) None)
     = Inr (NESpan ?d 6 15 None)"
    by code_simp
  have a: "subspan (NEDoc (str ''abc'')) (ItemSlice (Slice (Some 1) None None)) None
     = Inr (NESpan (NEDoc (str ''abc'')) 1 3 None)"
    by (simp add: subspan_slice or_zero_def str_def)
  have 1: "span_invariant (NESpan (NEDoc (str ''abc'')) 1 3 None)"
    using C4_span_invariant [where self = "NEDoc (str ''abc'')" and st = "Some 1" and sp = None
        and k = None and l = None and s = "NESpan (NEDoc (str ''abc'')) 1 3 None"] a
    by (simp add: or_zero_def str_def)
  have 2: "span_invariant (NESpan ?d 6 15 None)"
    using C4_span_invariant [where tok = space_tokenizer and self = ?d
        and ws = "Slice (Some 1) (Some 3) None" and s' = "NESpan ?d 6 15 None"] t w
    by simp
  from a 1 t w 2 show ?thesis
    by (intro conjI)
qed

section \<open>Character offsets, serialization and owners\<close>

text \<open>
  C5: \<open>subspan\<close> with any two integer offsets succeeds and stores them as they are; the text
  of the span is the owner's text sliced by them. It is always a contiguous part of the
  owner's text: for offsets that are not negative it is \<open>drop a (take b text)\<close>, cut at the
  end of the text when the end is past it, and empty when the start is past the text or the
  end is not after the start.
\<close>

theorem C5_subspan_no_bounds_check:
  "subspan self (ItemSlice (Slice (Some a) (Some b) k)) l = Inr (NESpan self a b l)
   \<and> NESpan_text (NESpan self a b l) = getslice (text_of self) a b
   \<and> (\<exists>pre post. text_of self = pre @ NESpan_text (NESpan self a b l) @ post)
   \<and> (0 \<le> a \<and> 0 \<le> b \<longrightarrow>
        NESpan_text (NESpan self a b l) = drop (nat a) (take (nat b) (text_of self)))
   \<and> (int (length (text_of self)) \<le> a \<or> (0 \<le> a \<and> 0 \<le> b \<and> b \<le> a) \<longrightarrow>
        NESpan_text (NESpan self a b l) = [])
   \<and> (0 \<le> a \<and> int (length (text_of self)) \<le> b \<longrightarrow>
        NESpan_text (NESpan self a b l) = drop (nat a) (text_of self))"
proof (intro conjI impI)
  show "subspan self (ItemSlice (Slice (Some a) (Some b) k)) l = Inr (NESpan self a b l)"
    by (simp add: subspan_slice or_zero_def)
  show "NESpan_text (NESpan self a b l) = getslice (text_of self) a b"
    by simp
  show "\<exists>pre post. text_of self = pre @ NESpan_text (NESpan self a b l) @ post"
    using getslice_infix [of "text_of self" a b] by simp
next
  assume "0 \<le> a \<and> 0 \<le> b"
  then show "NESpan_text (NESpan self a b l) = drop (nat a) (take (nat b) (text_of self))"
    by (simp add: getslice_nonneg)
next
  assume h: "int (length (text_of self)) \<le> a \<or> (0 \<le> a \<and> 0 \<le> b \<and> b \<le> a)"
  have "getslice (text_of self) a b = []"
    using h unfolding getslice_take_drop slice_clamp_def by (auto simp: min_def max_def)
  then show "NESpan_text (NESpan self a b l) = []" by simp
next
  assume h: "0 \<le> a \<and> int (length (text_of self)) \<le> b"
  then have b: "0 \<le> b" and all: "length (text_of self) \<le> nat b"
    by linarith+
  from h b have "getslice (text_of self) a b = drop (nat a) (take (nat b) (text_of self))"
    by (simp add: getslice_nonneg)
  with all show "NESpan_text (NESpan self a b l) = drop (nat a) (text_of self)"
    by simp
qed

theorem C5_subspan_no_bounds_check_witness:
  "subspan (NEDoc (str ''hello'')) (ItemSlice (Slice (Some 3) (Some 100) None)) None
     = Inr (NESpan (NEDoc (str ''hello'')) 3 100 None)
   \<and> NESpan_text (NESpan (NEDoc (str ''hello'')) 3 100 None) = str ''lo''
   \<and> NESpan_text (NESpan (NEDoc (str ''hello'')) 7 9 None) = []
   \<and> NESpan_text (NESpan (NEDoc (str ''hello'')) 4 2 None) = []"
proof -
  let ?d = "NEDoc (str ''hello'')"
  note a = C5_subspan_no_bounds_check [where self = ?d and a = 3 and b = 100 and k = None and l = None]
  note b = C5_subspan_no_bounds_check [where self = ?d and a = 7 and b = 9 and k = None and l = None]
  note c = C5_subspan_no_bounds_check [where self = ?d and a = 4 and b = 2 and k = None and l = None]
  have 1: "subspan ?d (ItemSlice (Slice (Some 3) (Some 100) None)) None = Inr (NESpan ?d 3 100 None)"
    using a by blast
  have 2: "NESpan_text (NESpan ?d 3 100 None) = str ''lo''"
    using a by (simp add: str_def)
  have 3: "NESpan_text (NESpan ?d 7 9 None) = []"
    using b by (simp add: str_def)
  have 4: "NESpan_text (NESpan ?d 4 2 None) = []"
    using c by (simp add: str_def)
  from 1 2 3 4 show ?thesis by (intro conjI)
qed


text \<open>
  C7: the serialized structure of a span holds its range relative to the immediate owner
  and its label; it has a \<open>text\<close> entry exactly when the text is requested, and that entry is
  the text of the immediate owner sliced by the serialized range.
\<close>

theorem C7_serialize_round_trip:
  "map_of (NESpan_serialize (NESpan d st en l) w) ''range'' = Some (PyPair st en)
   \<and> PyPair st en = (case NESpan_range (NESpan d st en l) of (x, y) \<Rightarrow> PyPair x y)
   \<and> map_of (NESpan_serialize (NESpan d st en l) w) ''label''
       = Some (case NESpan_label (NESpan d st en l) of None \<Rightarrow> PyNone | Some x \<Rightarrow> PyStr x)
   \<and> (''text'' \<in> fst ` set (NESpan_serialize (NESpan d st en l) w)) = w
   \<and> map fst (NESpan_serialize (NESpan d st en l) False) = [''range'', ''label'']
   \<and> map_of (NESpan_serialize (NESpan d st en l) True) ''text''
       = Some (PyStr (getslice (text_of d) st en))
   \<and> map_of (NESpan_serialize (NESpan d st en l) True) ''text''
       = Some (PyStr (NESpan_text (NESpan d st en l)))"
  by (cases w) simp_all

text \<open>
  C8: \<open>subspan\<close> raises \<open>TypeError\<close> exactly for the arguments that are not slice objects.
\<close>

theorem C8_subspan_type_error:
  "(subspan self it l = Inl TypeError) = (\<forall>sl. it \<noteq> ItemSlice sl)
   \<and> ((\<exists>e. subspan self it l = Inl e) = (\<forall>sl. it \<noteq> ItemSlice sl))
   \<and> subspan self ItemNone l = Inl TypeError
   \<and> subspan self (ItemInt i) l = Inl TypeError
   \<and> subspan self (ItemStr t) l = Inl TypeError
   \<and> subspan self (ItemPair i j) l = Inl TypeError"
  by (cases it) (simp_all add: subspan_def)

text \<open>
  C9: the span that \<open>subspan\<close> or \<open>subspan_by_word_indices\<close> returns has the receiver as its
  owner, at any depth of the receiver, and its text is the receiver's text sliced by its
  range.
\<close>

theorem C9_owner_is_receiver:
  "(subspan self it l = Inr s \<longrightarrow>
      NESpan_doc s = self
      \<and> NESpan_text s = getslice (text_of self) (fst (NESpan_range s)) (snd (NESpan_range s)))
   \<and> (subspan_by_word_indices tok self ws = Inr s' \<longrightarrow>
      NESpan_doc s' = self
      \<and> NESpan_text s' = getslice (text_of self) (fst (NESpan_range s')) (snd (NESpan_range s')))"
proof -
  have sub: "NESpan_doc s = self
      \<and> NESpan_text s = getslice (text_of self) (fst (NESpan_range s)) (snd (NESpan_range s))"
    if "subspan self it l = Inr s" for self it l s
    using that by (cases it) (auto simp: subspan_def NESpan_init_def)
  have "NESpan_doc s' = self
      \<and> NESpan_text s' = getslice (text_of self) (fst (NESpan_range s')) (snd (NESpan_range s'))"
    if "subspan_by_word_indices tok self ws = Inr s'"
  proof -
    from that obtain it where "subspan self it None = Inr s'"
      by (auto simp: subspan_by_word_indices_def Let_def split: sum.splits if_splits)
    then show ?thesis by (rule sub)
  qed
  with sub show ?thesis by blast
qed

theorem C9_owner_is_receiver_witness:
  "subspan (OfSpan (NESpan (NEDoc (str ''hello world foo'')) 6 15 None))
      (ItemSlice (Slice (Some 0) (Some 5) None)) None
     = Inr (NESpan (OfSpan (NESpan (NEDoc (str ''hello world foo'')) 6 15 None)) 0 5 None)
   \<and> NESpan_doc (NESpan (OfSpan (NESpan (NEDoc (str ''hello world foo'')) 6 15 None)) 0 5 None)
       = OfSpan (NESpan (NEDoc (str ''hello world foo'')) 6 15 None)
   \<and> subspan_by_word_indices space_tokenizer
        (OfSpan (NESpan (NEDoc (str ''hello world foo'')) 6 15 None)) (Slice (Some 1) None None)
     = Inr (NESpan (OfSpan (NESpan (NEDoc (str ''hello world foo'')) 6 15 None)) 6 9 None)
   \<and> NESpan_doc (NESpan (OfSpan (NESpan (NEDoc (str ''hello world foo'')) 6 15 None)) 6 9 None)
       = OfSpan (NESpan (NEDoc (str ''hello world foo'')) 6 15 None)
   \<and> NESpan_text (NESpan (OfSpan (NESpan (NEDoc (str ''hello world foo'')) 6 15 None)) 6 9 None)
       = str ''foo''"
proof -
  let ?o = "OfSpan (NESpan (NEDoc (str ''hello world foo'')) 6 15 None)"
  have a: "subspan ?o (ItemSlice (Slice (Some 0) (Some 5) None)) None = Inr (NESpan ?o 0 5 None)"
    by (simp add: subspan_slice or_zero_def)
  have b: "subspan_by_word_indices space_tokenizer ?o (Slice (Some 1) None None)
     = Inr (NESpan ?o 6 9 None)"
    by code_simp
  have g: "getslice (text_of ?o) 6 9 = str ''foo''"
    by code_simp
  have 1: "NESpan_doc (NESpan ?o 0 5 None) = ?o"
    using C9_owner_is_receiver [where self = ?o and it = "ItemSlice (Slice (Some 0) (Some 5) None)"
        and l = None and s = "NESpan ?o 0 5 None"] a
    by blast
  have 2: "NESpan_doc (NESpan ?o 6 9 None) = ?o \<and> NESpan_text (NESpan ?o 6 9 None) = str ''foo''"
    using C9_owner_is_receiver [where self = ?o and tok = space_tokenizer
        and ws = "Slice (Some 1) None None" and s' = "NESpan ?o 6 9 None"] b g
    by simp
  from a 1 b 2 show ?thesis by blast
qed

section \<open>Labels\<close>

lemma dict_getitem_missing:
  "k \<notin> fst ` set d \<Longrightarrow> dict_getitem d k = Inl (KeyError k)"
  by (simp add: dict_getitem_def map_of_eq_None_iff [THEN iffD2])

text \<open>
  C6: for both enums, a label that is no key of the table raises \<open>KeyError\<close> for that label,
  and every key of the table gives the member whose name the table holds for it; no other
  member is ever put in its place. \<open>Citation\<close> and its Hebrew form both give \<open>CITATION\<close>.
\<close>

theorem C6_span_label_to_enum:
  "(l \<notin> fst ` set LABEL_TO_NAMED_ENTITY_TYPE_ATTR \<longrightarrow>
      NamedEntityType_span_label_to_enum l = Inl (KeyError l))
   \<and> (\<forall>(k, name) \<in> set LABEL_TO_NAMED_ENTITY_TYPE_ATTR.
        \<exists>m. NamedEntityType_span_label_to_enum k = Inr m \<and> NamedEntityType_name m = name)
   \<and> (l \<notin> fst ` set LABEL_TO_REF_PART_TYPE_ATTR \<longrightarrow>
      RefPartType_span_label_to_enum l = Inl (KeyError l))
   \<and> (\<forall>(k, name) \<in> set LABEL_TO_REF_PART_TYPE_ATTR.
        \<exists>m. RefPartType_span_label_to_enum k = Inr m \<and> RefPartType_name m = name)
   \<and> NamedEntityType_span_label_to_enum (str ''Citation'') = Inr CITATION
   \<and> NamedEntityType_span_label_to_enum [1502, 1511, 1493, 1512] = Inr CITATION"
proof (intro conjI impI)
  assume "l \<notin> fst ` set LABEL_TO_NAMED_ENTITY_TYPE_ATTR"
  then show "NamedEntityType_span_label_to_enum l = Inl (KeyError l)"
    by (simp add: NamedEntityType_span_label_to_enum_def dict_getitem_missing)
next
  assume "l \<notin> fst ` set LABEL_TO_REF_PART_TYPE_ATTR"
  then show "RefPartType_span_label_to_enum l = Inl (KeyError l)"
    by (simp add: RefPartType_span_label_to_enum_def dict_getitem_missing)
next
  show "\<forall>(k, name) \<in> set LABEL_TO_NAMED_ENTITY_TYPE_ATTR.
        \<exists>m. NamedEntityType_span_label_to_enum k = Inr m \<and> NamedEntityType_name m = name"
    by (simp add: LABEL_TO_NAMED_ENTITY_TYPE_ATTR_def NamedEntityType_span_label_to_enum_def
        dict_getitem_def NamedEntityType_getattr_def str_def)
next
  show "\<forall>(k, name) \<in> set LABEL_TO_REF_PART_TYPE_ATTR.
        \<exists>m. RefPartType_span_label_to_enum k = Inr m \<and> RefPartType_name m = name"
    by (simp add: LABEL_TO_REF_PART_TYPE_ATTR_def RefPartType_span_label_to_enum_def
        dict_getitem_def RefPartType_getattr_def str_def)
next
  show "NamedEntityType_span_label_to_enum (str ''Citation'') = Inr CITATION"
    by (simp add: LABEL_TO_NAMED_ENTITY_TYPE_ATTR_def NamedEntityType_span_label_to_enum_def
        dict_getitem_def NamedEntityType_getattr_def str_def)
next
  show "NamedEntityType_span_label_to_enum [1502, 1511, 1493, 1512] = Inr CITATION"
    by (simp add: LABEL_TO_NAMED_ENTITY_TYPE_ATTR_def NamedEntityType_span_label_to_enum_def
        dict_getitem_def NamedEntityType_getattr_def str_def)
qed

theorem C6_span_label_to_enum_witness:
  "str ''unknown-xyz'' \<notin> fst ` set LABEL_TO_NAMED_ENTITY_TYPE_ATTR
   \<and> NamedEntityType_span_label_to_enum (str ''unknown-xyz'') = Inl (KeyError (str ''unknown-xyz''))
   \<and> str ''unknown-xyz'' \<notin> fst ` set LABEL_TO_REF_PART_TYPE_ATTR
   \<and> RefPartType_span_label_to_enum (str ''unknown-xyz'') = Inl (KeyError (str ''unknown-xyz''))
   \<and> (str ''Person'', ''PERSON'') \<in> set LABEL_TO_NAMED_ENTITY_TYPE_ATTR
   \<and> NamedEntityType_span_label_to_enum (str ''Person'') = Inr PERSON
   \<and> (str ''dir-ibid'', ''RELATIVE'') \<in> set LABEL_TO_REF_PART_TYPE_ATTR
   \<and> RefPartType_span_label_to_enum (str ''dir-ibid'') = Inr RELATIVE"
proof -
  note c = C6_span_label_to_enum [where l = "str ''unknown-xyz''"]
  have a: "str ''unknown-xyz'' \<notin> fst ` set LABEL_TO_NAMED_ENTITY_TYPE_ATTR"
    by (simp add: LABEL_TO_NAMED_ENTITY_TYPE_ATTR_def str_def)
  have b: "str ''unknown-xyz'' \<notin> fst ` set LABEL_TO_REF_PART_TYPE_ATTR"
    by (simp add: LABEL_TO_REF_PART_TYPE_ATTR_def str_def)
  have p: "(str ''Person'', ''PERSON'') \<in> set LABEL_TO_NAMED_ENTITY_TYPE_ATTR"
    by (simp add: LABEL_TO_NAMED_ENTITY_TYPE_ATTR_def)
  have r: "(str ''dir-ibid'', ''RELATIVE'') \<in> set LABEL_TO_REF_PART_TYPE_ATTR"
    by (simp add: LABEL_TO_REF_PART_TYPE_ATTR_def)
  have 1: "NamedEntityType_span_label_to_enum (str ''unknown-xyz'') = Inl (KeyError (str ''unknown-xyz''))"
    using c a by blast
  have 2: "RefPartType_span_label_to_enum (str ''unknown-xyz'') = Inl (KeyError (str ''unknown-xyz''))"
    using c b by blast
  from c have "\<forall>(k, name) \<in> set LABEL_TO_NAMED_ENTITY_TYPE_ATTR.
        \<exists>m. NamedEntityType_span_label_to_enum k = Inr m \<and> NamedEntityType_name m = name"
    by (elim conjE)
  from bspec [OF this p] obtain m where m: "NamedEntityType_span_label_to_enum (str ''Person'') = Inr m"
      "NamedEntityType_name m = ''PERSON''"
    by auto
  have 3: "NamedEntityType_span_label_to_enum (str ''Person'') = Inr PERSON"
    using m by (cases m) simp_all
  from c have "\<forall>(k, name) \<in> set LABEL_TO_REF_PART_TYPE_ATTR.
        \<exists>m. RefPartType_span_label_to_enum k = Inr m \<and> RefPartType_name m = name"
    by (elim conjE)
  from bspec [OF this r] obtain m' where m': "RefPartType_span_label_to_enum (str ''dir-ibid'') = Inr m'"
      "RefPartType_name m' = ''RELATIVE''"
    by auto
  have 4: "RefPartType_span_label_to_enum (str ''dir-ibid'') = Inr RELATIVE"
    using m' by (cases m') simp_all
  from a 1 b 2 p 3 r 4 show ?thesis by (intro conjI)
qed

section \<open>The start of a word slice\<close>

lemma slice_select_step_one:
  assumes "slice_adjust (int (length xs)) st sp 1 = (s, e)"
  shows "slice_select xs st sp 1 = take (nat (e - s)) (drop (nat s) xs)"
proof -
  have b: "0 \<le> s" "s \<le> int (length xs)" "0 \<le> e" "e \<le> int (length xs)"
    using slice_adjust_pos [OF _ assms] by simp_all
  have len: "slice_length s e 1 = nat (e - s)"
    by (simp add: slice_length_def)
  have idx: "\<And>i. nat (s + int i) = nat s + i"
    using b by (simp add: nat_add_distrib)
  have fit: "nat s + nat (e - s) \<le> length xs"
    using b by linarith
  have "slice_select xs st sp 1 = map (\<lambda>i. xs ! (nat s + i)) [0 ..< nat (e - s)]"
    by (simp add: slice_select_def assms len idx)
  also have "\<dots> = take (nat (e - s)) (drop (nat s) xs)"
    using fit by (rule map_nth_take_drop)
  finally show ?thesis .
qed

lemma slice_from_last:
  assumes "xs \<noteq> []"
  shows "slice_select xs (Some (- 1)) None 1 = [last xs]"
proof -
  let ?n = "int (length xs)"
  have n: "1 \<le> ?n" using assms by (cases xs) simp_all
  have adj: "slice_adjust ?n (Some (- 1)) None 1 = (?n - 1, ?n)"
    using n by (simp add: slice_adjust_def slice_clamp_def Let_def)
  have "slice_select xs (Some (- 1)) None 1 = take (nat (?n - (?n - 1))) (drop (nat (?n - 1)) xs)"
    by (rule slice_select_step_one [OF adj])
  also have "\<dots> = drop (length xs - 1) xs"
    using n by (simp add: nat_diff_distrib)
  also have "\<dots> = [last xs]"
    using assms by (metis append_butlast_last_id append_eq_conv_conj length_butlast)
  finally show ?thesis .
qed

lemma slice_from_far_left:
  assumes "int (length xs) < k"
  shows "slice_select xs (Some (- k)) None 1 = xs"
proof -
  let ?n = "int (length xs)"
  have adj: "slice_adjust ?n (Some (- k)) None 1 = (0, ?n)"
    using assms by (simp add: slice_adjust_def slice_clamp_def Let_def)
  show ?thesis
    using slice_select_step_one [OF adj] by simp
qed

lemma slice_from_count_empty:
  assumes "0 < k"
  shows "slice_select xs (Some (int (length xs))) sp k = []"
proof -
  obtain s e where adj: "slice_adjust (int (length xs)) (Some (int (length xs))) sp k = (s, e)"
    by (cases "slice_adjust (int (length xs)) (Some (int (length xs))) sp k")
  have e: "e \<le> int (length xs)"
    using slice_adjust_pos [OF assms adj] by simp
  have s: "s = int (length xs)"
    using adj assms by (simp add: slice_adjust_def slice_clamp_def Let_def)
  have "slice_length s e k = 0"
    using assms e s by (simp add: slice_length_def)
  then show ?thesis
    by (simp add: slice_select_def adj)
qed


lemma subspan_by_word_indices_cases:
  "subspan_by_word_indices tok self ws =
     (case getitem_slice (word_spans tok self) ws of
        Inl e \<Rightarrow> Inl e
      | Inr sel \<Rightarrow>
          if sel = [] then
            (if (\<exists>s. sl_start ws = Some s \<and> int (word_length tok self) < s)
             then Inl (IndexError ws (word_length tok self))
             else Inr (NESpan self 0 0 None))
          else Inr (NESpan self (fst (hd sel)) (snd (last sel)) None))"
  by (cases "sl_start ws")
     (auto simp: subspan_by_word_indices_def Let_def word_length_def subspan_slice or_zero_def
           split: sum.splits)

text \<open>
  The claim C10 as it is written fails for a word slice with a step. On the one-word text
  \<open>hello\<close>, \<open>slice(1, None, -1)\<close> has its start equal to the number of words and gives the
  span \<open>[0, 5)\<close> of the word, not a span of length zero; and \<open>slice(-1, None, 0)\<close> has a
  negative start and raises \<open>ValueError\<close>.
\<close>

theorem C10_word_slice_counterexample:
  "word_length space_tokenizer (NEDoc (str ''hello'')) = 1
   \<and> subspan_by_word_indices space_tokenizer (NEDoc (str ''hello''))
        (Slice (Some 1) None (Some (- 1)))
     = Inr (NESpan (NEDoc (str ''hello'')) 0 5 None)
   \<and> subspan_by_word_indices space_tokenizer (NEDoc (str ''hello''))
        (Slice (Some (- 1)) None (Some 0))
     = Inl ValueError"
  by code_simp

text \<open>
  C10, amended: the \<open>IndexError\<close> is raised only when the start of the word slice is greater
  than the number of words. A start equal to the number of words, in a slice with no step or
  a positive one, gives the span \<open>[0, 0)\<close>. A negative start never raises the \<open>IndexError\<close>,
  and the call returns a span unless the step is zero. With at least one word,
  \<open>slice(-1, None)\<close> gives the span of the last word and \<open>slice(-k, None)\<close> with \<open>k\<close> greater
  than the number of words gives the span from the start of the first word to the end of the
  last.
\<close>

theorem C10_word_slice_start:
  "((\<exists>sl m. subspan_by_word_indices tok self ws = Inl (IndexError sl m)) \<longrightarrow>
       (\<exists>s. sl_start ws = Some s \<and> int (word_length tok self) < s))
   \<and> (sl_start ws = Some (int (word_length tok self))
        \<and> (sl_step ws = None \<or> (\<exists>j. sl_step ws = Some j \<and> 0 < j)) \<longrightarrow>
       subspan_by_word_indices tok self ws = Inr (NESpan self 0 0 None))
   \<and> ((\<exists>s. sl_start ws = Some s \<and> s < 0) \<longrightarrow>
       (\<forall>sl m. subspan_by_word_indices tok self ws \<noteq> Inl (IndexError sl m))
       \<and> (sl_step ws \<noteq> Some 0 \<longrightarrow> (\<exists>sp. subspan_by_word_indices tok self ws = Inr sp)))
   \<and> (word_spans tok self \<noteq> [] \<longrightarrow>
       subspan_by_word_indices tok self (Slice (Some (- 1)) None None)
         = Inr (NESpan self (fst (last (word_spans tok self))) (snd (last (word_spans tok self))) None))
   \<and> (int (word_length tok self) < k \<and> word_spans tok self \<noteq> [] \<longrightarrow>
       subspan_by_word_indices tok self (Slice (Some (- k)) None None)
         = Inr (NESpan self (fst (hd (word_spans tok self))) (snd (last (word_spans tok self))) None))
   \<and> (int (word_length tok self) < k \<and> word_spans tok self = [] \<longrightarrow>
       subspan_by_word_indices tok self (Slice (Some (- k)) None None) = Inr (NESpan self 0 0 None))"
proof (intro conjI impI)
  assume "\<exists>sl m. subspan_by_word_indices tok self ws = Inl (IndexError sl m)"
  then show "\<exists>s. sl_start ws = Some s \<and> int (word_length tok self) < s"
    unfolding subspan_by_word_indices_cases
    by (auto simp: getitem_slice_def Let_def split: sum.splits if_splits)
next
  assume a: "sl_start ws = Some (int (word_length tok self))
        \<and> (sl_step ws = None \<or> (\<exists>j. sl_step ws = Some j \<and> 0 < j))"
  then obtain j where j: "0 < j"
    and sel: "getitem_slice (word_spans tok self) ws
       = Inr (slice_select (word_spans tok self) (sl_start ws) (sl_stop ws) j)"
    using getitem_slice_pos [of ws "word_spans tok self"] by blast
  have "slice_select (word_spans tok self) (sl_start ws) (sl_stop ws) j = []"
    using a slice_from_count_empty [OF j, of "word_spans tok self" "sl_stop ws"]
    by (simp add: word_length_def)
  with a sel show "subspan_by_word_indices tok self ws = Inr (NESpan self 0 0 None)"
    by (simp add: subspan_by_word_indices_cases)
next
  assume a: "\<exists>s. sl_start ws = Some s \<and> s < 0"
  then have no: "\<not> (\<exists>s. sl_start ws = Some s \<and> int (word_length tok self) < s)"
    by auto
  show "\<forall>sl m. subspan_by_word_indices tok self ws \<noteq> Inl (IndexError sl m)"
    unfolding subspan_by_word_indices_cases using no
    by (auto simp: getitem_slice_def Let_def split: sum.splits if_splits)
next
  assume a: "\<exists>s. sl_start ws = Some s \<and> s < 0" and z: "sl_step ws \<noteq> Some 0"
  then have no: "\<not> (\<exists>s. sl_start ws = Some s \<and> int (word_length tok self) < s)"
    by auto
  from z obtain sel where "getitem_slice (word_spans tok self) ws = Inr sel"
    by (cases "sl_step ws") (auto simp: getitem_slice_def)
  with no show "\<exists>sp. subspan_by_word_indices tok self ws = Inr sp"
    by (auto simp: subspan_by_word_indices_cases)
next
  assume ne: "word_spans tok self \<noteq> []"
  then have "getitem_slice (word_spans tok self) (Slice (Some (- 1)) None None)
      = Inr [last (word_spans tok self)]"
    by (simp add: getitem_slice_def slice_from_last)
  then show "subspan_by_word_indices tok self (Slice (Some (- 1)) None None)
         = Inr (NESpan self (fst (last (word_spans tok self))) (snd (last (word_spans tok self))) None)"
    by (simp add: subspan_by_word_indices_cases)
next
  assume a: "int (word_length tok self) < k \<and> word_spans tok self \<noteq> []"
  then have "getitem_slice (word_spans tok self) (Slice (Some (- k)) None None)
      = Inr (word_spans tok self)"
    by (simp add: getitem_slice_def slice_from_far_left word_length_def)
  with a show "subspan_by_word_indices tok self (Slice (Some (- k)) None None)
         = Inr (NESpan self (fst (hd (word_spans tok self))) (snd (last (word_spans tok self))) None)"
    by (simp add: subspan_by_word_indices_cases)
next
  assume a: "int (word_length tok self) < k \<and> word_spans tok self = []"
  then have "getitem_slice (word_spans tok self) (Slice (Some (- k)) None None)
      = Inr (word_spans tok self)"
    by (simp add: getitem_slice_def slice_from_far_left word_length_def)
  with a show "subspan_by_word_indices tok self (Slice (Some (- k)) None None) = Inr (NESpan self 0 0 None)"
    by (simp add: subspan_by_word_indices_cases word_length_def)
qed

theorem C10_word_slice_start_witness:
  "sl_start (Slice (Some 3) None None)
     = Some (int (word_length space_tokenizer (NEDoc (str ''hello world foo''))))
   \<and> subspan_by_word_indices space_tokenizer (NEDoc (str ''hello world foo'')) (Slice (Some 3) None None)
       = Inr (NESpan (NEDoc (str ''hello world foo'')) 0 0 None)
   \<and> subspan_by_word_indices space_tokenizer (NEDoc (str ''hello world foo'')) (Slice (Some (- 1)) None None)
       = Inr (NESpan (NEDoc (str ''hello world foo'')) 12 15 None)
   \<and> subspan_by_word_indices space_tokenizer (NEDoc (str ''hello world foo'')) (Slice (Some (- 7)) None None)
       = Inr (NESpan (NEDoc (str ''hello world foo'')) 0 15 None)
   \<and> (\<exists>sp. subspan_by_word_indices space_tokenizer (NEDoc (str ''hello world foo''))
              (Slice (Some (- 1000)) (Some 2) (Some 2)) = Inr sp)
   \<and> subspan_by_word_indices space_tokenizer (NEDoc (str ''hello world foo'')) (Slice (Some 4) None None)
       = Inl (IndexError (Slice (Some 4) None None) 3)
   \<and> sl_start (Slice (Some 4) None None) = Some 4
   \<and> int (word_length space_tokenizer (NEDoc (str ''hello world foo''))) < 4"
proof -
  let ?d = "NEDoc (str ''hello world foo'')"
  have n: "word_length space_tokenizer ?d = 3"
    by (simp add: word_length_def hello_words)
  note a = C10_word_slice_start [where tok = space_tokenizer and self = ?d
      and ws = "Slice (Some 3) None None" and k = 7]
  note b = C10_word_slice_start [where tok = space_tokenizer and self = ?d
      and ws = "Slice (Some (- 1000)) (Some 2) (Some 2)" and k = 7]
  note c = C10_word_slice_start [where tok = space_tokenizer and self = ?d
      and ws = "Slice (Some 4) None None" and k = 7]
  have 1: "subspan_by_word_indices space_tokenizer ?d (Slice (Some 3) None None)
       = Inr (NESpan ?d 0 0 None)"
    using a n by simp
  have 2: "subspan_by_word_indices space_tokenizer ?d (Slice (Some (- 1)) None None)
       = Inr (NESpan ?d 12 15 None)"
    using a by (simp add: hello_words)
  have 3: "subspan_by_word_indices space_tokenizer ?d (Slice (Some (- 7)) None None)
       = Inr (NESpan ?d 0 15 None)"
    using a n by (simp add: hello_words)
  have 4: "\<exists>sp. subspan_by_word_indices space_tokenizer ?d
              (Slice (Some (- 1000)) (Some 2) (Some 2)) = Inr sp"
    using b by simp
  have 5: "subspan_by_word_indices space_tokenizer ?d (Slice (Some 4) None None)
       = Inl (IndexError (Slice (Some 4) None None) 3)"
    by code_simp
  have 6: "int (word_length space_tokenizer ?d) < 4"
    using c 5 by auto
  from n 1 2 3 4 5 6 show ?thesis by simp
qed

end
